theory Spec2Isabelle
  imports Main "HOL-Library.Char_ord" "HOL-Library.List_Lexorder" "HOL-Library.AList"
begin

section \<open>Data model\<close>

text \<open>
  The exceptions the modelled code can raise. \<open>NotValidRank\<close> stands for the
  \<^verbatim>\<open>Exception("Not valid rank")\<close> of \<^verbatim>\<open>place_between\<close>,
  \<open>RebalancingRequiredException\<close> is the overflow signal of the rank algebra,
  \<open>MultipleObjectsReturned\<close>, \<open>DatabaseError\<close> and \<open>DoesNotExist\<close> are the
  persistence layer's.
\<close>

datatype error =
    AttributeError
  | TypeError
  | IndexError
  | RebalancingRequiredException
  | NotValidRank
  | MultipleObjectsReturned
  | DatabaseError
  | DoesNotExist
  | ValueError

text \<open>
  A keyword dictionary: an association list in insertion order, assigned to with
  \<^const>\<open>AList.update\<close> and read with \<^const>\<open>map_of\<close>. \<open>kwargs\<close> is the dictionary decoded
  from a serialized key (\<^verbatim>\<open>filter_kwargs\<close>), whose values are strings. \<open>obj_kwargs\<close> is a
  dictionary whose values are related objects (\<^verbatim>\<open>_with_respect_to_kwargs\<close>): the key of
  the object, or \<open>None\<close> for Python's \<^verbatim>\<open>None\<close>.
\<close>

type_synonym kwargs = "(string \<times> string) list"

type_synonym obj_kwargs = "(string \<times> string option) list"

text \<open>
  A row of a concrete ranked model. \<open>related\<close> holds, for each grouping field of the row
  that is set, the related object it points to; a related object is identified by its
  primary key, kept in the string form \<^verbatim>\<open>str(obj.pk)\<close> that
  \<^verbatim>\<open>_with_respect_to_value\<close> reads. \<open>nulls\<close> lists the grouping fields of the row that
  are null: the attribute exists and is \<^verbatim>\<open>None\<close>.
\<close>

record item =
  pk :: nat
  rank :: string
  related :: "(string \<times> string) list"
  nulls :: "string list"

text \<open>A row of \<^verbatim>\<open>ScheduledRebalancing\<close> (scheduled_rebalancing.py).\<close>

record scheduled_rebalancing =
  model :: string
  with_respect_to :: string
  scheduled_at :: nat

text \<open>
  A concrete subclass of \<^verbatim>\<open>RankedModel\<close>: \<^verbatim>\<open>_meta.model_name\<close>,
  \<^verbatim>\<open>order_with_respect_to\<close> (\<^verbatim>\<open>Optional[List[str]]\<close>, \<^verbatim>\<open>None\<close> by default), and
  what its schema decides. The declarations of the grouping fields are not among the
  sources, so the coercion that a query applies to a string given as the value of a
  grouping field is a parameter: \<open>to_python field text\<close> is the key the text denotes for
  that field, in the same string form \<^verbatim>\<open>str(pk)\<close> as in the rows, or the exception the
  field raises for a text it does not accept.
\<close>

record ranked_cls =
  model_name :: string
  order_with_respect_to :: "string list option"
  to_python :: "string \<Rightarrow> string \<Rightarrow> error + string"

text \<open>The store: the table of the ranked model and the table of scheduled rebalancings.\<close>

record db =
  objects :: "item list"
  scheduled :: "scheduled_rebalancing list"

text \<open>An operation on the store returns its value or the exception, and the store it leaves.\<close>

type_synonym 'a result = "(error + 'a) \<times> db"

text \<open>
  The module \<^verbatim>\<open>..lexorank\<close> is not among the sources; the functions of
  \<^verbatim>\<open>LexoRank\<close> that ranked_model.py calls are taken as parameters. Following the
  specification (4.1), the minimum key and the increment are pure and total, and the
  in-between synthesis may raise.
\<close>

record lexorank =
  get_lexorank_in_between :: "string option \<Rightarrow> string option \<Rightarrow> nat \<Rightarrow> error + string"
  get_min_rank :: "nat \<Rightarrow> string"
  increment_rank :: "string \<Rightarrow> nat \<Rightarrow> string"
  rebalancing_length :: nat

section \<open>The serialized partition key\<close>

text \<open>\<^verbatim>\<open>SEPARATOR = ":"\<close>, a string of one character.\<close>

definition SEPARATOR :: char where
  "SEPARATOR = CHR '':''"

text \<open>\<^verbatim>\<open>sep.join(xs)\<close> and \<^verbatim>\<open>s.split(sep)\<close> of Python, for a separator of one character.\<close>

fun join :: "char \<Rightarrow> string list \<Rightarrow> string" where
  "join sep [] = []"
| "join sep [x] = x"
| "join sep (x # y # ys) = x @ sep # join sep (y # ys)"

fun split :: "char \<Rightarrow> string \<Rightarrow> string list" where
  "split sep [] = [[]]"
| "split sep (c # cs) =
     (if c = sep then [] # split sep cs
      else (case split sep cs of [] \<Rightarrow> [[c]] | w # ws \<Rightarrow> (c # w) # ws))"

text \<open>
  \<^verbatim>\<open>getattr(self, field)\<close> for a grouping field: the related object, \<^verbatim>\<open>None\<close> for a
  null field, or \<^verbatim>\<open>AttributeError\<close> when the instance has no such attribute.
\<close>

definition getattr_obj :: "item \<Rightarrow> string \<Rightarrow> error + string option" where
  "getattr_obj self field =
     (case map_of (related self) field of
        Some v \<Rightarrow> Inr (Some v)
      | None \<Rightarrow> if field \<in> set (nulls self) then Inr None else Inl AttributeError)"

text \<open>
  \<^verbatim>\<open>getattr(self, field).pk\<close>: the related object's key; \<^verbatim>\<open>AttributeError\<close> when the
  instance has no such attribute, and also when the field is null, since \<^verbatim>\<open>None\<close> has no
  attribute \<^verbatim>\<open>pk\<close>.
\<close>

definition getattr_field :: "item \<Rightarrow> string \<Rightarrow> error + string" where
  "getattr_field self field =
     (case map_of (related self) field of None \<Rightarrow> Inl AttributeError | Some v \<Rightarrow> Inr v)"

text \<open>\<^verbatim>\<open>map(lambda x: str(getattr(self, x).pk), self.order_with_respect_to)\<close>\<close>

fun getattrs :: "item \<Rightarrow> string list \<Rightarrow> error + string list" where
  "getattrs self [] = Inr []"
| "getattrs self (f # fs) =
     (case getattr_field self f of
        Inl e \<Rightarrow> Inl e
      | Inr v \<Rightarrow> (case getattrs self fs of Inl e \<Rightarrow> Inl e | Inr vs \<Rightarrow> Inr (v # vs)))"

text \<open>
  \<^verbatim>\<open>_with_respect_to_kwargs\<close>: empty when \<^verbatim>\<open>order_with_respect_to\<close> is falsy
  (\<^verbatim>\<open>None\<close> or the empty list), otherwise the dictionary built field by field.
\<close>

fun kwargs_loop :: "item \<Rightarrow> string list \<Rightarrow> obj_kwargs \<Rightarrow> error + obj_kwargs" where
  "kwargs_loop self [] result = Inr result"
| "kwargs_loop self (f # fs) result =
     (case getattr_obj self f of
        Inl e \<Rightarrow> Inl e
      | Inr v \<Rightarrow> kwargs_loop self fs (AList.update f v result))"

definition with_respect_to_kwargs :: "ranked_cls \<Rightarrow> item \<Rightarrow> error + obj_kwargs" where
  "with_respect_to_kwargs cls self =
     (case order_with_respect_to cls of
        None \<Rightarrow> Inr []
      | Some fs \<Rightarrow> if fs = [] then Inr [] else kwargs_loop self fs [])"

text \<open>\<^verbatim>\<open>_with_respect_to_value\<close>: the tuple of the related keys, or the empty tuple.\<close>

definition with_respect_to_value :: "ranked_cls \<Rightarrow> item \<Rightarrow> error + string list" where
  "with_respect_to_value cls self =
     (case order_with_respect_to cls of
        None \<Rightarrow> Inr []
      | Some fs \<Rightarrow> if fs = [] then Inr [] else getattrs self fs)"

text \<open>\<^verbatim>\<open>_with_respect_to_value_key\<close>: the tuple joined with the separator.\<close>

definition with_respect_to_value_key :: "ranked_cls \<Rightarrow> item \<Rightarrow> error + string" where
  "with_respect_to_value_key cls self =
     (case with_respect_to_value cls self of
        Inl e \<Rightarrow> Inl e
      | Inr vs \<Rightarrow> Inr (join SEPARATOR vs))"

text \<open>
  \<^verbatim>\<open>reverse_with_respect_to_value_key\<close>: the loop over the grouping fields reads
  \<^verbatim>\<open>values[idx]\<close> (\<^verbatim>\<open>IndexError\<close> past the end) and assigns it in the dictionary;
  iterating over \<^verbatim>\<open>order_with_respect_to = None\<close> raises \<^verbatim>\<open>TypeError\<close>.
\<close>

fun reverse_loop :: "string list \<Rightarrow> string list \<Rightarrow> nat \<Rightarrow> kwargs \<Rightarrow> error + kwargs" where
  "reverse_loop values [] idx result = Inr result"
| "reverse_loop values (f # fs) idx result =
     (if idx < length values
      then reverse_loop values fs (idx + 1) (AList.update f (values ! idx) result)
      else Inl IndexError)"

definition reverse_with_respect_to_value_key :: "ranked_cls \<Rightarrow> string \<Rightarrow> error + kwargs" where
  "reverse_with_respect_to_value_key cls key =
     (let values = split SEPARATOR key in
      case order_with_respect_to cls of
        None \<Rightarrow> Inl TypeError
      | Some fs \<Rightarrow> reverse_loop values fs 0 [])"

section \<open>The persistence layer\<close>

text \<open>
  The queries of the object-relational mapper that the code uses, on a table held as a
  list of rows. \<^verbatim>\<open>filter(**kwargs)\<close> with related objects as values keeps the rows whose
  grouping fields point to those objects; a value \<^verbatim>\<open>None\<close> keeps the rows where the field
  is null. \<^verbatim>\<open>order_by("rank")\<close> and \<^verbatim>\<open>order_by("-rank")\<close> sort by the rank string,
  bytewise and lexicographically; the database fixes no order among rows of equal rank,
  and both keep them in table order here. \<^verbatim>\<open>first()\<close> is the first row or \<^verbatim>\<open>None\<close>.
\<close>

definition matches :: "item \<Rightarrow> string \<times> string option \<Rightarrow> bool" where
  "matches r fv =
     (case snd fv of
        Some v \<Rightarrow> map_of (related r) (fst fv) = Some v
      | None \<Rightarrow> map_of (related r) (fst fv) = None \<and> fst fv \<in> set (nulls r))"

definition filter_rows :: "obj_kwargs \<Rightarrow> item list \<Rightarrow> item list" where
  "filter_rows kw rows = filter (\<lambda>r. list_all (matches r) kw) rows"

text \<open>
  \<^verbatim>\<open>filter(**filter_kwargs)\<close> with strings as values, as \<^verbatim>\<open>rebalance_by_scheduled\<close>
  calls it: each string is first coerced to the key type of its field, which raises for
  a string that the field does not accept; the coerced keys are then compared.
\<close>

fun prep_lookups :: "(string \<Rightarrow> string \<Rightarrow> error + string) \<Rightarrow> kwargs \<Rightarrow> error + obj_kwargs" where
  "prep_lookups coerce [] = Inr []"
| "prep_lookups coerce (fv # kw) =
     (case coerce (fst fv) (snd fv) of
        Inl e \<Rightarrow> Inl e
      | Inr k \<Rightarrow>
          (case prep_lookups coerce kw of
             Inl e \<Rightarrow> Inl e
           | Inr lookups \<Rightarrow> Inr ((fst fv, Some k) # lookups)))"

definition order_by_rank :: "item list \<Rightarrow> item list" where
  "order_by_rank rows = sort_key rank rows"

definition order_by_rank_desc :: "item list \<Rightarrow> item list" where
  "order_by_rank_desc rows = rev (sort_key rank (rev rows))"

definition first :: "'a list \<Rightarrow> 'a option" where
  "first rows = (case rows of [] \<Rightarrow> None | r # _ \<Rightarrow> Some r)"

text \<open>
  \<^verbatim>\<open>bulk_update(objs, ["rank"])\<close>: every row whose primary key is that of an object of the
  list takes that object's rank.
\<close>

definition bulk_update :: "item list \<Rightarrow> item list \<Rightarrow> item list" where
  "bulk_update objs rows =
     map (\<lambda>r. case find (\<lambda>obj. pk obj = pk r) objs of
                 None \<Rightarrow> r
               | Some obj \<Rightarrow> r\<lparr>rank := rank obj\<rparr>) rows"

text \<open>\<^verbatim>\<open>obj.refresh_from_db()\<close>: the row of the object's primary key, read again.\<close>

definition refresh_from_db :: "db \<Rightarrow> item \<Rightarrow> error + item" where
  "refresh_from_db d obj =
     (case find (\<lambda>r. pk r = pk obj) (objects d) of
        None \<Rightarrow> Inl DoesNotExist
      | Some r \<Rightarrow> Inr r)"

text \<open>
  \<^verbatim>\<open>super().save(...)\<close>: with \<^verbatim>\<open>update_fields=["rank"]\<close> (\<open>rank_only\<close>) the rank of
  the existing row is written, and a missing row is an error; otherwise the row is
  updated, or inserted when the table has no row of that primary key.
\<close>

definition super_save :: "db \<Rightarrow> item \<Rightarrow> bool \<Rightarrow> error + db" where
  "super_save d self rank_only =
     (if list_ex (\<lambda>r. pk r = pk self) (objects d)
      then Inr (d\<lparr>objects :=
                   map (\<lambda>r. if pk r = pk self
                             then (if rank_only then r\<lparr>rank := rank self\<rparr> else self)
                             else r) (objects d)\<rparr>)
      else if rank_only then Inl DatabaseError
      else Inr (d\<lparr>objects := objects d @ [self]\<rparr>))"

text \<open>
  \<^verbatim>\<open>ScheduledRebalancing.objects.update_or_create(model=m, with_respect_to=k)\<close>, called
  with no \<^verbatim>\<open>defaults\<close>: the row matching the lookup is fetched, or created when there is
  none; more than one match raises. \<^verbatim>\<open>scheduled_at\<close> is declared
  \<^verbatim>\<open>DateTimeField(auto_now_add=True)\<close>: it is stamped with the current time when the row
  is created and is not touched when an existing row is saved again, so for an existing
  row nothing changes.
\<close>

definition update_or_create :: "nat \<Rightarrow> string \<Rightarrow> string \<Rightarrow> db \<Rightarrow> unit result" where
  "update_or_create now m k d =
     (case filter (\<lambda>r. model r = m \<and> with_respect_to r = k) (scheduled d) of
        [] \<Rightarrow> (Inr (), d\<lparr>scheduled := scheduled d @
                            [\<lparr>model = m, with_respect_to = k, scheduled_at = now\<rparr>]\<rparr>)
      | [r] \<Rightarrow> (Inr (), d)
      | r # r' # rs \<Rightarrow> (Inl MultipleObjectsReturned, d))"

section \<open>Attribute access on the instance\<close>

text \<open>
  ranked_model.py declares \<^verbatim>\<open>def _model(self)\<close> as a plain method (lines 61-62 carry no
  \<^verbatim>\<open>@property\<close>, unlike \<^verbatim>\<open>_with_respect_to_kwargs\<close>, \<^verbatim>\<open>_with_respect_to_value\<close> and
  \<^verbatim>\<open>_objects_count\<close> next to it), and every use writes \<^verbatim>\<open>self._model.objects\<close> without
  calling it. The expression \<^verbatim>\<open>self._model\<close> is therefore a bound method, not the model
  class, and a bound method has no attribute \<^verbatim>\<open>objects\<close>: reading it raises
  \<^verbatim>\<open>AttributeError\<close>. The class methods read \<^verbatim>\<open>cls.objects\<close>, the manager of the table.
\<close>

datatype pyobj = BoundMethod | ModelClass

definition self_model :: pyobj where
  "self_model = BoundMethod"

definition dot_objects :: "db \<Rightarrow> pyobj \<Rightarrow> error + item list" where
  "dot_objects d v = (case v of BoundMethod \<Rightarrow> Inl AttributeError | ModelClass \<Rightarrow> Inr (objects d))"

text \<open>\<^verbatim>\<open>getattr(obj, "rank", None)\<close> for an object that may be \<^verbatim>\<open>None\<close>.\<close>

definition getattr_rank :: "item option \<Rightarrow> string option" where
  "getattr_rank obj = (case obj of None \<Rightarrow> None | Some x \<Rightarrow> Some (rank x))"

section \<open>Queries of the partition\<close>

text \<open>\<^verbatim>\<open>_objects_count\<close>: \<^verbatim>\<open>self._model.objects.filter(**self._with_respect_to_kwargs).count()\<close>\<close>

definition objects_count :: "ranked_cls \<Rightarrow> db \<Rightarrow> item \<Rightarrow> error + nat" where
  "objects_count cls d self =
     (case dot_objects d self_model of
        Inl e \<Rightarrow> Inl e
      | Inr rows \<Rightarrow>
          (case with_respect_to_kwargs cls self of
             Inl e \<Rightarrow> Inl e
           | Inr kw \<Rightarrow> Inr (length (filter_rows kw rows))))"

definition get_previous_object :: "ranked_cls \<Rightarrow> db \<Rightarrow> item \<Rightarrow> error + item option" where
  "get_previous_object cls d self =
     (case dot_objects d self_model of
        Inl e \<Rightarrow> Inl e
      | Inr rows \<Rightarrow>
          (case with_respect_to_kwargs cls self of
             Inl e \<Rightarrow> Inl e
           | Inr kw \<Rightarrow>
               Inr (first (order_by_rank_desc
                      (filter (\<lambda>r. rank r < rank self) (filter_rows kw rows))))))"

definition get_next_object :: "ranked_cls \<Rightarrow> db \<Rightarrow> item \<Rightarrow> error + item option" where
  "get_next_object cls d self =
     (case dot_objects d self_model of
        Inl e \<Rightarrow> Inl e
      | Inr rows \<Rightarrow>
          (case with_respect_to_kwargs cls self of
             Inl e \<Rightarrow> Inl e
           | Inr kw \<Rightarrow>
               Inr (first (order_by_rank
                      (filter (\<lambda>r. rank self < rank r) (filter_rows kw rows))))))"

text \<open>
  \<^verbatim>\<open>get_first_object(cls, with_respect_to_kwargs)\<close> and \<^verbatim>\<open>get_last_object\<close>: class
  methods whose parameter has no default. The argument is \<open>None\<close> here for a call that
  leaves it out, which Python refuses with \<^verbatim>\<open>TypeError\<close> before the body runs.
\<close>

definition get_first_object :: "ranked_cls \<Rightarrow> db \<Rightarrow> obj_kwargs option \<Rightarrow> error + item option" where
  "get_first_object cls d arg =
     (case arg of
        None \<Rightarrow> Inl TypeError
      | Some kw \<Rightarrow>
          if order_with_respect_to cls \<noteq> None \<and> order_with_respect_to cls \<noteq> Some [] \<and> kw = []
          then Inl ValueError
          else Inr (first (order_by_rank (filter_rows kw (objects d)))))"

definition get_last_object :: "ranked_cls \<Rightarrow> db \<Rightarrow> obj_kwargs option \<Rightarrow> error + item option" where
  "get_last_object cls d arg =
     (case arg of
        None \<Rightarrow> Inl TypeError
      | Some kw \<Rightarrow>
          if order_with_respect_to cls \<noteq> None \<and> order_with_respect_to cls \<noteq> Some [] \<and> kw = []
          then Inl ValueError
          else Inr (first (order_by_rank_desc (filter_rows kw (objects d)))))"

text \<open>\<^verbatim>\<open>rebalancing_required\<close>: some row of the partition has a rank of the rebalancing length or more.\<close>

definition rebalancing_required :: "lexorank \<Rightarrow> ranked_cls \<Rightarrow> db \<Rightarrow> item \<Rightarrow> error + bool" where
  "rebalancing_required L cls d self =
     (case dot_objects d self_model of
        Inl e \<Rightarrow> Inl e
      | Inr rows \<Rightarrow>
          (case with_respect_to_kwargs cls self of
             Inl e \<Rightarrow> Inl e
           | Inr kw \<Rightarrow>
               Inr (list_ex (\<lambda>r. rebalancing_length L \<le> length (rank r)) (filter_rows kw rows))))"

section \<open>Scheduling and saving\<close>

definition schedule_rebalancing :: "nat \<Rightarrow> ranked_cls \<Rightarrow> db \<Rightarrow> item \<Rightarrow> unit result" where
  "schedule_rebalancing now cls d self =
     (case with_respect_to_value_key cls self of
        Inl e \<Rightarrow> (Inl e, d)
      | Inr key \<Rightarrow> update_or_create now (model_name cls) key d)"

text \<open>
  \<^verbatim>\<open>save\<close> runs under \<^verbatim>\<open>@transaction.atomic\<close>: an exception leaves the store as it was
  on entry.
\<close>

definition save :: "lexorank \<Rightarrow> nat \<Rightarrow> ranked_cls \<Rightarrow> db \<Rightarrow> item \<Rightarrow> bool \<Rightarrow> unit result" where
  "save L now cls d self rank_only =
     (case super_save d self rank_only of
        Inl e \<Rightarrow> (Inl e, d)
      | Inr d1 \<Rightarrow>
          (case rebalancing_required L cls d1 self of
             Inl e \<Rightarrow> (Inl e, d)
           | Inr required \<Rightarrow>
               if required
               then (case schedule_rebalancing now cls d1 self of
                       (Inl e, d2) \<Rightarrow> (Inl e, d)
                     | (Inr u, d2) \<Rightarrow> (Inr (), d2))
               else (Inr (), d1)))"

definition move_to :: "lexorank \<Rightarrow> nat \<Rightarrow> ranked_cls \<Rightarrow> db \<Rightarrow> item \<Rightarrow> string \<Rightarrow> item result" where
  "move_to L now cls d self r =
     (let self' = self\<lparr>rank := r\<rparr> in
      case save L now cls d self' True of
        (Inl e, d') \<Rightarrow> (Inl e, d')
      | (Inr u, d') \<Rightarrow> (Inr self', d'))"

section \<open>Redistribution\<close>

text \<open>
  The loop of \<^verbatim>\<open>rebalance_by_scheduled\<close>: the rank is incremented first and the
  incremented rank is assigned, object after object; the result is \<^verbatim>\<open>objects_to_update\<close>.
\<close>

fun scheduled_loop :: "lexorank \<Rightarrow> nat \<Rightarrow> string \<Rightarrow> item list \<Rightarrow> item list" where
  "scheduled_loop L object_count r [] = []"
| "scheduled_loop L object_count r (obj # qs) =
     (let r' = increment_rank L r object_count
      in obj\<lparr>rank := r'\<rparr> # scheduled_loop L object_count r' qs)"

definition rebalance_by_scheduled :: "lexorank \<Rightarrow> ranked_cls \<Rightarrow> db \<Rightarrow> string \<Rightarrow> unit result" where
  "rebalance_by_scheduled L cls d key =
     (case reverse_with_respect_to_value_key cls key of
        Inl e \<Rightarrow> (Inl e, d)
      | Inr filter_kwargs \<Rightarrow>
          (case prep_lookups (to_python cls) filter_kwargs of
             Inl e \<Rightarrow> (Inl e, d)
           | Inr lookups \<Rightarrow>
               (let object_count = length (filter_rows lookups (objects d));
                    qs = order_by_rank (filter_rows lookups (objects d));
                    objects_to_update =
                      scheduled_loop L object_count (get_min_rank L object_count) qs
                in (Inr (), d\<lparr>objects := bulk_update objects_to_update (objects d)\<rparr>))))"

text \<open>
  The loop of \<^verbatim>\<open>rebalance\<close> reads \<^verbatim>\<open>self._objects_count\<close> again at every step. The
  whole body runs in one transaction, and an exception leaves the store as it was. The
  hooks \<^verbatim>\<open>post_rebalance\<close> and \<^verbatim>\<open>post_rebalance_by_scheduled\<close> are empty
  (\<^verbatim>\<open>pass\<close>) and do not appear.
\<close>

fun rebalance_loop ::
  "lexorank \<Rightarrow> ranked_cls \<Rightarrow> db \<Rightarrow> item \<Rightarrow> string \<Rightarrow> item list \<Rightarrow> error + item list" where
  "rebalance_loop L cls d self r [] = Inr []"
| "rebalance_loop L cls d self r (obj # qs) =
     (case objects_count cls d self of
        Inl e \<Rightarrow> Inl e
      | Inr n \<Rightarrow>
          (let r' = increment_rank L r n in
           case rebalance_loop L cls d self r' qs of
             Inl e \<Rightarrow> Inl e
           | Inr objs \<Rightarrow> Inr (obj\<lparr>rank := r'\<rparr> # objs)))"

definition rebalance :: "lexorank \<Rightarrow> ranked_cls \<Rightarrow> db \<Rightarrow> item \<Rightarrow> item result" where
  "rebalance L cls d self =
     (case dot_objects d self_model of
        Inl e \<Rightarrow> (Inl e, d)
      | Inr rows \<Rightarrow>
     (case with_respect_to_kwargs cls self of
        Inl e \<Rightarrow> (Inl e, d)
      | Inr kw \<Rightarrow>
     (case objects_count cls d self of
        Inl e \<Rightarrow> (Inl e, d)
      | Inr n \<Rightarrow>
     (case rebalance_loop L cls d self (get_min_rank L n) (order_by_rank (filter_rows kw rows)) of
        Inl e \<Rightarrow> (Inl e, d)
      | Inr objects_to_update \<Rightarrow>
     (case dot_objects d self_model of
        Inl e \<Rightarrow> (Inl e, d)
      | Inr rows' \<Rightarrow>
     (let d' = d\<lparr>objects := bulk_update objects_to_update rows'\<rparr> in
      case refresh_from_db d' self of
        Inl e \<Rightarrow> (Inl e, d')
      | Inr self' \<Rightarrow> (Inr self', d')))))))"

section \<open>Placement\<close>

text \<open>\<^verbatim>\<open>if obj: obj.refresh_from_db()\<close> for a boundary object that may be \<^verbatim>\<open>None\<close>.\<close>

definition refresh_boundary :: "db \<Rightarrow> item option \<Rightarrow> error + item option" where
  "refresh_boundary d obj =
     (case obj of
        None \<Rightarrow> Inr None
      | Some x \<Rightarrow> (case refresh_from_db d x of Inl e \<Rightarrow> Inl e | Inr x' \<Rightarrow> Inr (Some x')))"

text \<open>
  \<^verbatim>\<open>_wrapper_get_lexorank_in_between\<close>. The \<^verbatim>\<open>try\<close> body evaluates the argument
  \<^verbatim>\<open>self._objects_count\<close> and then calls the synthesis; the \<^verbatim>\<open>return\<close> of the triple
  sits in the \<^verbatim>\<open>else\<close> clause, which runs only when the body raised nothing. Only
  \<^verbatim>\<open>RebalancingRequiredException\<close> enters the handler, which rebalances, reads the
  boundaries again and calls the synthesis once more, outside any \<^verbatim>\<open>try\<close>; after the
  handler the function ends without a \<^verbatim>\<open>return\<close>, so its value is \<^verbatim>\<open>None\<close>
  (\<open>Inr None\<close> here). Any other exception is raised again as it is.
\<close>

definition wrapper_get_lexorank_in_between ::
  "lexorank \<Rightarrow> ranked_cls \<Rightarrow> db \<Rightarrow> item \<Rightarrow> item option \<Rightarrow> item option
     \<Rightarrow> (item option \<times> string \<times> item option) option result" where
  "wrapper_get_lexorank_in_between L cls d self before_obj after_obj =
     (let previous_rank = getattr_rank before_obj;
          next_rank = getattr_rank after_obj
      in
      case (case objects_count cls d self of
              Inl e \<Rightarrow> Inl e
            | Inr n \<Rightarrow> get_lexorank_in_between L previous_rank next_rank n) of
        Inr r \<Rightarrow> (Inr (Some (before_obj, r, after_obj)), d)
      | Inl e \<Rightarrow>
          if e = RebalancingRequiredException
          then
            (case rebalance L cls d self of
               (Inl e', d') \<Rightarrow> (Inl e', d')
             | (Inr self', d') \<Rightarrow>
            (case refresh_boundary d' before_obj of
               Inl e' \<Rightarrow> (Inl e', d')
             | Inr before' \<Rightarrow>
            (case refresh_boundary d' after_obj of
               Inl e' \<Rightarrow> (Inl e', d')
             | Inr after' \<Rightarrow>
            (case objects_count cls d' self' of
               Inl e' \<Rightarrow> (Inl e', d')
             | Inr n \<Rightarrow>
            (case get_lexorank_in_between L (getattr_rank before') (getattr_rank after') n of
               Inl e' \<Rightarrow> (Inl e', d')
             | Inr r \<Rightarrow> (Inr None, d'))))))
          else (Inl e, d))"

text \<open>
  Every caller unpacks the wrapper's value into three names at once; unpacking
  \<^verbatim>\<open>None\<close> raises \<^verbatim>\<open>TypeError\<close>. \<^verbatim>\<open>place_on_top\<close> and \<^verbatim>\<open>place_on_bottom\<close> call
  \<^verbatim>\<open>self.get_first_object()\<close> and \<^verbatim>\<open>self.get_last_object()\<close> with no argument.
\<close>

definition place_on_top :: "lexorank \<Rightarrow> nat \<Rightarrow> ranked_cls \<Rightarrow> db \<Rightarrow> item \<Rightarrow> item result" where
  "place_on_top L now cls d self =
     (case get_first_object cls d None of
        Inl e \<Rightarrow> (Inl e, d)
      | Inr first_object \<Rightarrow>
          (case wrapper_get_lexorank_in_between L cls d self None first_object of
             (Inl e, d') \<Rightarrow> (Inl e, d')
           | (Inr None, d') \<Rightarrow> (Inl TypeError, d')
           | (Inr (Some (b, r, a)), d') \<Rightarrow> move_to L now cls d' self r))"

definition place_on_bottom :: "lexorank \<Rightarrow> nat \<Rightarrow> ranked_cls \<Rightarrow> db \<Rightarrow> item \<Rightarrow> item result" where
  "place_on_bottom L now cls d self =
     (case get_last_object cls d None of
        Inl e \<Rightarrow> (Inl e, d)
      | Inr last_object \<Rightarrow>
          (case wrapper_get_lexorank_in_between L cls d self last_object None of
             (Inl e, d') \<Rightarrow> (Inl e, d')
           | (Inr None, d') \<Rightarrow> (Inl TypeError, d')
           | (Inr (Some (b, r, a)), d') \<Rightarrow> move_to L now cls d' self r))"

definition place_after ::
  "lexorank \<Rightarrow> nat \<Rightarrow> ranked_cls \<Rightarrow> db \<Rightarrow> item \<Rightarrow> item \<Rightarrow> item result" where
  "place_after L now cls d self after_obj =
     (case get_next_object cls d after_obj of
        Inl e \<Rightarrow> (Inl e, d)
      | Inr next_obj \<Rightarrow>
          (case wrapper_get_lexorank_in_between L cls d self (Some after_obj) next_obj of
             (Inl e, d') \<Rightarrow> (Inl e, d')
           | (Inr None, d') \<Rightarrow> (Inl TypeError, d')
           | (Inr (Some (b, r, a)), d') \<Rightarrow> move_to L now cls d' self r))"

definition place_before ::
  "lexorank \<Rightarrow> nat \<Rightarrow> ranked_cls \<Rightarrow> db \<Rightarrow> item \<Rightarrow> item \<Rightarrow> item result" where
  "place_before L now cls d self before_obj =
     (case get_previous_object cls d before_obj of
        Inl e \<Rightarrow> (Inl e, d)
      | Inr previous_obj \<Rightarrow>
          (case wrapper_get_lexorank_in_between L cls d self previous_obj (Some before_obj) of
             (Inl e, d') \<Rightarrow> (Inl e, d')
           | (Inr None, d') \<Rightarrow> (Inl TypeError, d')
           | (Inr (Some (b, r, a)), d') \<Rightarrow> move_to L now cls d' self r))"

text \<open>
  The existence check of \<^verbatim>\<open>place_between\<close>: \<^verbatim>\<open>rank__gt\<close> is added only when the previous
  rank is truthy (not \<^verbatim>\<open>None\<close> and not the empty string), and likewise \<^verbatim>\<open>rank__lt\<close>.
\<close>

definition rank_gt :: "string option \<Rightarrow> item \<Rightarrow> bool" where
  "rank_gt previous_rank r =
     (case previous_rank of None \<Rightarrow> True | Some p \<Rightarrow> if p = [] then True else p < rank r)"

definition rank_lt :: "string option \<Rightarrow> item \<Rightarrow> bool" where
  "rank_lt next_rank r =
     (case next_rank of None \<Rightarrow> True | Some n \<Rightarrow> if n = [] then True else rank r < n)"

text \<open>
  The statements of \<^verbatim>\<open>place_between\<close> that follow the call of the wrapper (lines 138 to
  147), for the triple the wrapper returned: the ranks of the boundaries, the filter on
  the partition of the item, the existence check that raises
  \<^verbatim>\<open>Exception("Not valid rank")\<close>, and the move.
\<close>

definition check_and_move ::
  "lexorank \<Rightarrow> nat \<Rightarrow> ranked_cls \<Rightarrow> db \<Rightarrow> item \<Rightarrow> item option \<Rightarrow> string \<Rightarrow> item option
     \<Rightarrow> item result" where
  "check_and_move L now cls d self before_obj r after_obj =
     (let previous_rank = getattr_rank before_obj;
          next_rank = getattr_rank after_obj
      in
      case with_respect_to_kwargs cls self of
        Inl e \<Rightarrow> (Inl e, d)
      | Inr kw \<Rightarrow>
          if filter (\<lambda>x. rank_gt previous_rank x \<and> rank_lt next_rank x)
               (filter_rows kw (objects d)) \<noteq> []
          then (Inl NotValidRank, d)
          else move_to L now cls d self r)"

definition place_between ::
  "lexorank \<Rightarrow> nat \<Rightarrow> ranked_cls \<Rightarrow> db \<Rightarrow> item \<Rightarrow> item option \<Rightarrow> item option \<Rightarrow> item result" where
  "place_between L now cls d self before_obj after_obj =
     (case wrapper_get_lexorank_in_between L cls d self before_obj after_obj of
        (Inl e, d') \<Rightarrow> (Inl e, d')
      | (Inr None, d') \<Rightarrow> (Inl TypeError, d')
      | (Inr (Some (before', r, after')), d') \<Rightarrow>
          check_and_move L now cls d' self before' r after')"

section \<open>The maintenance command\<close>

text \<open>
  \<^verbatim>\<open>Command.resolve\<close> (base_rebalance.py). \<^verbatim>\<open>Command.model\<close> is \<^verbatim>\<open>None\<close> unless a
  subclass sets it. The due rows are those with \<^verbatim>\<open>scheduled_at <= now\<close>, whatever their
  \<^verbatim>\<open>model\<close> column says; the loop calls \<^verbatim>\<open>rebalance_by_scheduled\<close> on each and has no
  \<^verbatim>\<open>try\<close>, and nothing in it writes to the table of scheduled rebalancings.
\<close>

definition due :: "nat \<Rightarrow> db \<Rightarrow> scheduled_rebalancing list" where
  "due now d = filter (\<lambda>r. scheduled_at r \<le> now) (scheduled d)"

fun resolve_loop ::
  "lexorank \<Rightarrow> ranked_cls option \<Rightarrow> scheduled_rebalancing list \<Rightarrow> db \<Rightarrow> unit result" where
  "resolve_loop L cmd_model [] d = (Inr (), d)"
| "resolve_loop L cmd_model (x # rest) d =
     (case cmd_model of
        None \<Rightarrow> (Inl AttributeError, d)
      | Some cls \<Rightarrow>
          (case rebalance_by_scheduled L cls d (with_respect_to x) of
             (Inl e, d') \<Rightarrow> (Inl e, d')
           | (Inr u, d') \<Rightarrow> resolve_loop L cmd_model rest d'))"

definition resolve :: "lexorank \<Rightarrow> ranked_cls option \<Rightarrow> nat \<Rightarrow> db \<Rightarrow> unit result" where
  "resolve L cmd_model now d =
     (let scheduled_rows = due now d in
      if scheduled_rows = [] then (Inr (), d)
      else resolve_loop L cmd_model scheduled_rows d)"

section \<open>Notions used to state the properties\<close>

text \<open>The rank stored in a table for a primary key.\<close>

definition rank_of_pk :: "item list \<Rightarrow> nat \<Rightarrow> string option" where
  "rank_of_pk rows p =
     (case find (\<lambda>r. pk r = p) rows of None \<Rightarrow> None | Some r \<Rightarrow> Some (rank r))"

text \<open>The rows of the table of scheduled rebalancings for a model name and a partition key.\<close>

definition requests_for :: "string \<Rightarrow> string \<Rightarrow> db \<Rightarrow> scheduled_rebalancing list" where
  "requests_for m k d = filter (\<lambda>r. model r = m \<and> with_respect_to r = k) (scheduled d)"

text \<open>\<^verbatim>\<open>schedule_rebalancing\<close> called once at each time of a list, in order.\<close>

fun schedule_repeatedly :: "ranked_cls \<Rightarrow> item \<Rightarrow> nat list \<Rightarrow> db \<Rightarrow> unit result" where
  "schedule_repeatedly cls self [] d = (Inr (), d)"
| "schedule_repeatedly cls self (t # ts) d =
     (case schedule_rebalancing t cls d self of
        (Inl e, d') \<Rightarrow> (Inl e, d')
      | (Inr u, d') \<Rightarrow> schedule_repeatedly cls self ts d')"

section \<open>Sample data\<close>

text \<open>
  A model of cards grouped by board and column with integer keys, four cards (three of them in column 2 of
  board 1), tables of scheduled rebalancings, and a rank algebra with a minimum key, an
  increment that appends a letter and a synthesis that finds room only in an empty list.
\<close>

text \<open>
  The coercion of a model whose related keys are integers: a text of decimal digits
  denotes the integer it writes, leading zeros dropped; any other text is refused.
\<close>

definition int_lookup :: "string \<Rightarrow> string \<Rightarrow> error + string" where
  "int_lookup field text =
     (if text \<noteq> [] \<and> list_all (\<lambda>c. c \<in> set ''0123456789'') text
      then Inr (case dropWhile (\<lambda>c. c = CHR ''0'') text of [] \<Rightarrow> ''0'' | c # cs \<Rightarrow> c # cs)
      else Inl ValueError)"

definition card_cls :: ranked_cls where
  "card_cls = \<lparr>model_name = ''card'', order_with_respect_to = Some [''board'', ''column''],
                to_python = int_lookup\<rparr>"

definition card1 :: item where
  "card1 = \<lparr>pk = 1, rank = ''m'', related = [(''board'', ''1''), (''column'', ''2'')],
             nulls = []\<rparr>"

definition card2 :: item where
  "card2 = \<lparr>pk = 2, rank = ''c'', related = [(''board'', ''1''), (''column'', ''2'')],
             nulls = []\<rparr>"

definition card3 :: item where
  "card3 = \<lparr>pk = 3, rank = ''x'', related = [(''board'', ''1''), (''column'', ''3'')],
             nulls = []\<rparr>"

definition card4 :: item where
  "card4 = \<lparr>pk = 4, rank = ''t'', related = [(''board'', ''1''), (''column'', ''2'')],
             nulls = []\<rparr>"

definition sample_db :: db where
  "sample_db = \<lparr>objects = [card1, card2, card3, card4], scheduled = []\<rparr>"

definition due_db :: db where
  "due_db = sample_db\<lparr>scheduled :=
     [\<lparr>model = ''card'', with_respect_to = ''1:2'', scheduled_at = 3\<rparr>]\<rparr>"

definition mixed_db :: db where
  "mixed_db = sample_db\<lparr>scheduled :=
     [\<lparr>model = ''task'', with_respect_to = ''7'', scheduled_at = 1\<rparr>,
      \<lparr>model = ''card'', with_respect_to = ''1:2'', scheduled_at = 2\<rparr>]\<rparr>"

definition three_db :: db where
  "three_db = sample_db\<lparr>scheduled :=
     [\<lparr>model = ''card'', with_respect_to = ''1:2'', scheduled_at = 1\<rparr>,
      \<lparr>model = ''task'', with_respect_to = ''7'', scheduled_at = 2\<rparr>,
      \<lparr>model = ''card'', with_respect_to = ''1:3'', scheduled_at = 3\<rparr>]\<rparr>"

definition two_due_db :: db where
  "two_due_db = sample_db\<lparr>scheduled :=
     [\<lparr>model = ''card'', with_respect_to = ''1:2'', scheduled_at = 1\<rparr>,
      \<lparr>model = ''card'', with_respect_to = ''1:3'', scheduled_at = 2\<rparr>,
      \<lparr>model = ''card'', with_respect_to = ''1:2'', scheduled_at = 9\<rparr>]\<rparr>"

definition sample_lexorank :: lexorank where
  "sample_lexorank =
     \<lparr>get_lexorank_in_between =
        (\<lambda>p n c. if p = None \<and> n = None then Inr ''m'' else Inl RebalancingRequiredException),
      get_min_rank = (\<lambda>n. ''a''),
      increment_rank = (\<lambda>r n. r @ ''b''),
      rebalancing_length = 128\<rparr>"

section \<open>Round trip of the partition key\<close>

lemma split_no_sep: "sep \<notin> set x \<Longrightarrow> split sep x = [x]"
  by (induction x) auto

lemma split_append_sep:
  "sep \<notin> set x \<Longrightarrow> split sep (x @ sep # rest) = x # split sep rest"
  by (induction x) auto

lemma split_join:
  "xs \<noteq> [] \<Longrightarrow> \<forall>x \<in> set xs. sep \<notin> set x \<Longrightarrow> split sep (join sep xs) = xs"
proof (induction sep xs rule: join.induct)
  case (1 sep)
  then show ?case by simp
next
  case (2 sep x)
  then show ?case by (simp add: split_no_sep)
next
  case (3 sep x y ys)
  then show ?case by (simp add: split_append_sep)
qed

lemma getattrs_Inr:
  "getattrs self fs = Inr vs \<Longrightarrow>
     length vs = length fs \<and> (\<forall>j < length fs. map_of (related self) (fs ! j) = Some (vs ! j))"
proof (induction fs arbitrary: vs)
  case Nil
  then show ?case by simp
next
  case (Cons f fs)
  from Cons.prems obtain v ws where
    v: "map_of (related self) f = Some v" and ws: "getattrs self fs = Inr ws" and vs: "vs = v # ws"
    by (auto simp: getattr_field_def split: option.splits sum.splits)
  from Cons.IH [OF ws] show ?case
    using v vs by (auto simp: nth_Cons split: nat.splits)
qed

lemma reverse_loop_Inr:
  "idx + length fs \<le> length values \<Longrightarrow>
   \<forall>j < length fs. g (fs ! j) = Some (values ! (idx + j)) \<Longrightarrow>
   \<exists>kw. reverse_loop values fs idx result = Inr kw \<and>
        (\<forall>f. map_of kw f = (if f \<in> set fs then g f else map_of result f))"
proof (induction fs arbitrary: idx result)
  case Nil
  then show ?case by simp
next
  case (Cons f fs)
  have lt: "idx < length values" using Cons.prems(1) by simp
  have g0: "g f = Some (values ! idx)" using Cons.prems(2) by force
  have len: "Suc idx + length fs \<le> length values" using Cons.prems(1) by simp
  have rest: "\<forall>j < length fs. g (fs ! j) = Some (values ! (Suc idx + j))"
  proof (intro allI impI)
    fix j assume "j < length fs"
    then have "g ((f # fs) ! Suc j) = Some (values ! (idx + Suc j))"
      using Cons.prems(2) by (metis Suc_less_eq length_Cons)
    then show "g (fs ! j) = Some (values ! (Suc idx + j))" by simp
  qed
  from Cons.IH [OF len rest, of "AList.update f (values ! idx) result"]
  obtain kw where kw: "reverse_loop values fs (Suc idx) (AList.update f (values ! idx) result) = Inr kw"
    and m: "\<forall>h. map_of kw h =
              (if h \<in> set fs then g h else map_of (AList.update f (values ! idx) result) h)"
    by blast
  have "reverse_loop values (f # fs) idx result = Inr kw" using lt kw by simp
  moreover have "\<forall>h. map_of kw h = (if h \<in> set (f # fs) then g h else map_of result h)"
    using m g0 by (auto simp: update_conv')
  ultimately show ?case by blast
qed


text \<open>
  C9. For a model class whose \<^verbatim>\<open>order_with_respect_to\<close> is a non-empty list and an item
  whose related keys \<open>vs\<close> do not contain the separator, the serialized partition key is
  the keys joined by the separator; decoding it succeeds and yields a dictionary that
  assigns to each grouping field the string form of the item's related key, and to no
  other name; and another item with separator-free keys and the same serialized key has
  the same tuple of keys.
\<close>

theorem partition_key_round_trip:
  assumes fs: "order_with_respect_to cls = Some fs" and ne: "fs \<noteq> []"
    and vs: "with_respect_to_value cls self = Inr vs"
    and nosep: "\<forall>v \<in> set vs. SEPARATOR \<notin> set v"
  shows "\<exists>kw. with_respect_to_value_key cls self = Inr (join SEPARATOR vs)
           \<and> reverse_with_respect_to_value_key cls (join SEPARATOR vs) = Inr kw
           \<and> (\<forall>f \<in> set fs. map_of kw f = map_of (related self) f \<and> map_of kw f \<noteq> None)
           \<and> (\<forall>f. f \<notin> set fs \<longrightarrow> map_of kw f = None)
           \<and> (\<forall>other ws. with_respect_to_value cls other = Inr ws
                 \<and> (\<forall>w \<in> set ws. SEPARATOR \<notin> set w)
                 \<and> with_respect_to_value_key cls other = with_respect_to_value_key cls self
                 \<longrightarrow> ws = vs)"
proof -
  have ga: "getattrs self fs = Inr vs"
    using vs fs ne by (simp add: with_respect_to_value_def)
  from getattrs_Inr [OF ga] have len: "length vs = length fs"
    and nth: "\<forall>j < length fs. map_of (related self) (fs ! j) = Some (vs ! j)" by auto
  have vne: "vs \<noteq> []" using len ne by auto
  have key: "with_respect_to_value_key cls self = Inr (join SEPARATOR vs)"
    using vs by (simp add: with_respect_to_value_key_def)
  have sp: "split SEPARATOR (join SEPARATOR vs) = vs"
    by (rule split_join [OF vne nosep])
  have "\<exists>kw. reverse_loop vs fs 0 [] = Inr kw \<and>
          (\<forall>f. map_of kw f = (if f \<in> set fs then map_of (related self) f else map_of [] f))"
    by (rule reverse_loop_Inr) (use len nth in auto)
  then obtain kw where kw: "reverse_loop vs fs 0 [] = Inr kw"
    and m: "\<forall>f. map_of kw f = (if f \<in> set fs then map_of (related self) f else None)"
    by auto
  have rev: "reverse_with_respect_to_value_key cls (join SEPARATOR vs) = Inr kw"
    using kw fs sp by (simp add: reverse_with_respect_to_value_key_def)
  have some: "\<forall>f \<in> set fs. map_of (related self) f \<noteq> None"
  proof
    fix f assume "f \<in> set fs"
    then obtain j where "j < length fs" "fs ! j = f" by (auto simp: in_set_conv_nth)
    with nth show "map_of (related self) f \<noteq> None" by auto
  qed
  have inj: "ws = vs"
    if o: "with_respect_to_value cls other = Inr ws"
      and w: "\<forall>w \<in> set ws. SEPARATOR \<notin> set w"
      and e: "with_respect_to_value_key cls other = with_respect_to_value_key cls self"
    for other ws
  proof -
    have "getattrs other fs = Inr ws"
      using o fs ne by (simp add: with_respect_to_value_def)
    from getattrs_Inr [OF this] have "length ws = length fs" by simp
    then have wne: "ws \<noteq> []" using ne by auto
    have "join SEPARATOR ws = join SEPARATOR vs"
      using e o key by (simp add: with_respect_to_value_key_def)
    then have "split SEPARATOR (join SEPARATOR ws) = split SEPARATOR (join SEPARATOR vs)"
      by simp
    then show ?thesis using split_join [OF wne w] sp by simp
  qed
  show ?thesis
    using key rev m some inj by (intro exI [of _ kw]) auto
qed

theorem partition_key_round_trip_witness:
  "\<exists>kw. with_respect_to_value_key card_cls card1 = Inr ''1:2''
       \<and> reverse_with_respect_to_value_key card_cls ''1:2'' = Inr kw
       \<and> map_of kw ''board'' = Some ''1'' \<and> map_of kw ''column'' = Some ''2''
       \<and> map_of kw ''rank'' = None"
proof -
  have fs: "order_with_respect_to card_cls = Some [''board'', ''column'']"
    by (simp add: card_cls_def)
  have ne: "[''board'', ''column''] \<noteq> []" by simp
  have vs: "with_respect_to_value card_cls card1 = Inr [''1'', ''2'']"
    by (simp add: with_respect_to_value_def card_cls_def card1_def getattr_field_def)
  have nosep: "\<forall>v \<in> set [''1'', ''2'']. SEPARATOR \<notin> set v"
    by (simp add: SEPARATOR_def)
  from partition_key_round_trip [OF fs ne vs nosep]
  obtain kw where
    k: "with_respect_to_value_key card_cls card1 = Inr (join SEPARATOR [''1'', ''2''])"
    and r: "reverse_with_respect_to_value_key card_cls (join SEPARATOR [''1'', ''2'']) = Inr kw"
    and m: "\<forall>f \<in> set [''board'', ''column'']. map_of kw f = map_of (related card1) f \<and> map_of kw f \<noteq> None"
    and n: "\<forall>f. f \<notin> set [''board'', ''column''] \<longrightarrow> map_of kw f = None"
    by blast
  have j: "join SEPARATOR [''1'', ''2''] = ''1:2''" by (simp add: SEPARATOR_def)
  have "map_of kw ''board'' = Some ''1''" "map_of kw ''column'' = Some ''2''"
    using m by (simp_all add: card1_def)
  moreover have "map_of kw ''rank'' = None" using n by simp
  ultimately show ?thesis using k r j by auto
qed


section \<open>What the missing property decorator does to the instance methods\<close>

lemma objects_count_raises: "objects_count cls d self = Inl AttributeError"
  by (simp add: objects_count_def dot_objects_def self_model_def)

lemma rebalancing_required_raises: "rebalancing_required L cls d self = Inl AttributeError"
  by (simp add: rebalancing_required_def dot_objects_def self_model_def)

lemma get_next_object_raises: "get_next_object cls d obj = Inl AttributeError"
  by (simp add: get_next_object_def dot_objects_def self_model_def)

lemma get_previous_object_raises: "get_previous_object cls d obj = Inl AttributeError"
  by (simp add: get_previous_object_def dot_objects_def self_model_def)

lemma rebalance_raises: "rebalance L cls d self = (Inl AttributeError, d)"
  by (simp add: rebalance_def dot_objects_def self_model_def)

lemma wrapper_raises:
  "wrapper_get_lexorank_in_between L cls d self before_obj after_obj = (Inl AttributeError, d)"
  by (simp add: wrapper_get_lexorank_in_between_def objects_count_raises)

lemma place_between_raises:
  "place_between L now cls d self before_obj after_obj = (Inl AttributeError, d)"
  by (simp add: place_between_def wrapper_raises)

lemma save_raises:
  "save L now cls d self rank_only =
     (Inl (case super_save d self rank_only of Inl e \<Rightarrow> e | Inr d1 \<Rightarrow> AttributeError), d)"
  by (simp add: save_def rebalancing_required_raises split: sum.splits)

text \<open>
  C1 (the code departs from the claim). No placement operation reaches the in-between
  synthesis, whatever the rank algebra \<open>L\<close> does: \<^verbatim>\<open>place_on_top\<close> and
  \<^verbatim>\<open>place_on_bottom\<close> raise \<^verbatim>\<open>TypeError\<close> at the call that leaves out the argument,
  and the other three raise \<^verbatim>\<open>AttributeError\<close> when \<^verbatim>\<open>self._model.objects\<close> is read;
  the store is left as it was, so there is neither a redistribution nor a retry.
\<close>

theorem placement_raises_before_synthesis:
  "place_on_top L now cls d self = (Inl TypeError, d)
   \<and> place_on_bottom L now cls d self = (Inl TypeError, d)
   \<and> place_after L now cls d self anchor = (Inl AttributeError, d)
   \<and> place_before L now cls d self anchor = (Inl AttributeError, d)
   \<and> place_between L now cls d self before_obj after_obj = (Inl AttributeError, d)
   \<and> wrapper_get_lexorank_in_between L cls d self before_obj after_obj = (Inl AttributeError, d)"
  by (simp add: place_on_top_def place_on_bottom_def place_after_def place_before_def
      get_first_object_def get_last_object_def get_next_object_raises
      get_previous_object_raises place_between_raises wrapper_raises)

text \<open>
  C5 (the code departs from the claim). \<^verbatim>\<open>place_on_top\<close> calls
  \<^verbatim>\<open>self.get_first_object()\<close> without the required \<^verbatim>\<open>with_respect_to_kwargs\<close>, so it
  raises \<^verbatim>\<open>TypeError\<close> for every item and every partition; no key is computed and the
  table of the model is unchanged.
\<close>

theorem place_on_top_raises:
  "fst (place_on_top L now cls d self) = Inl TypeError
   \<and> objects (snd (place_on_top L now cls d self)) = objects d"
  by (simp add: place_on_top_def get_first_object_def)

text \<open>
  C6 (the code departs from the claim). In the sample table no card of column 2 of board 1
  has a rank strictly between those of card 2 (\<open>c\<close>) and card 1 (\<open>m\<close>); placing card 4
  between them still fails, with \<^verbatim>\<open>AttributeError\<close>, and card 4 keeps its rank.
\<close>

theorem place_between_fails_without_item_between:
  "filter (\<lambda>x. rank card2 < rank x \<and> rank x < rank card1) (objects sample_db) = []
   \<and> place_between L now card_cls sample_db card4 (Some card2) (Some card1)
       = (Inl AttributeError, sample_db)
   \<and> rank_of_pk (objects sample_db) 4 = Some ''t''"
  by (simp add: place_between_raises sample_db_def card1_def card2_def card3_def card4_def
      rank_of_pk_def)

text \<open>
  C8 (the code departs from the claim). \<^verbatim>\<open>save\<close> never succeeds: when the row itself is
  written, \<^verbatim>\<open>rebalancing_required\<close> raises \<^verbatim>\<open>AttributeError\<close>, the transaction is
  rolled back, and no scheduled rebalancing is created, whatever the lengths of the ranks.
\<close>

theorem save_raises_after_writing:
  "save L now cls d self rank_only =
     (Inl (case super_save d self rank_only of Inl e \<Rightarrow> e | Inr d1 \<Rightarrow> AttributeError), d)
   \<and> scheduled (snd (save L now cls d self rank_only)) = scheduled d"
  by (simp add: save_raises)








section \<open>Evaluation on the sample data\<close>

lemma reverse_sample_key:
  "reverse_with_respect_to_value_key card_cls ''1:2'' = Inr [(''board'', ''1''), (''column'', ''2'')]"
  by (simp add: reverse_with_respect_to_value_key_def card_cls_def SEPARATOR_def)

lemma reverse_other_key:
  "reverse_with_respect_to_value_key card_cls ''1:3'' = Inr [(''board'', ''1''), (''column'', ''3'')]"
  by (simp add: reverse_with_respect_to_value_key_def card_cls_def SEPARATOR_def)

lemma reverse_short_key: "reverse_with_respect_to_value_key card_cls ''7'' = Inl IndexError"
  by (simp add: reverse_with_respect_to_value_key_def card_cls_def SEPARATOR_def)

lemma coerce_card_cls: "to_python card_cls = int_lookup"
  by (simp add: card_cls_def)

lemma rebalance_by_scheduled_run:
  "reverse_with_respect_to_value_key cls key = Inr kw \<Longrightarrow>
   prep_lookups (to_python cls) kw = Inr lookups \<Longrightarrow>
   rebalance_by_scheduled L cls d key =
     (Inr (), d\<lparr>objects := bulk_update
        (scheduled_loop L (length (filter_rows lookups (objects d)))
           (get_min_rank L (length (filter_rows lookups (objects d))))
           (order_by_rank (filter_rows lookups (objects d))))
        (objects d)\<rparr>)"
  by (simp add: rebalance_by_scheduled_def Let_def)

lemma prep_sample_key:
  "prep_lookups int_lookup [(''board'', ''1''), (''column'', ''2'')]
     = Inr [(''board'', Some ''1''), (''column'', Some ''2'')]"
  by (simp add: int_lookup_def)

lemma prep_other_key:
  "prep_lookups int_lookup [(''board'', ''1''), (''column'', ''3'')]
     = Inr [(''board'', Some ''1''), (''column'', Some ''3'')]"
  by (simp add: int_lookup_def)

lemma filter_sample_rows:
  "filter_rows [(''board'', Some ''1''), (''column'', Some ''2'')] [card1, card2, card3, card4]
     = [card1, card2, card4]"
  by (simp add: filter_rows_def matches_def card1_def card2_def card3_def card4_def)

lemma order_sample_rows: "order_by_rank [card1, card2, card4] = [card2, card1, card4]"
  by (simp add: order_by_rank_def card1_def card2_def card4_def)

lemma bulk_update_sample:
  "bulk_update [card2\<lparr>rank := ''ab''\<rparr>, card1\<lparr>rank := ''abb''\<rparr>, card4\<lparr>rank := ''abbb''\<rparr>]
     [card1, card2, card3, card4]
   = [card1\<lparr>rank := ''abb''\<rparr>, card2\<lparr>rank := ''ab''\<rparr>, card3, card4\<lparr>rank := ''abbb''\<rparr>]"
  by (simp add: bulk_update_def card1_def card2_def card3_def card4_def)

lemma rebalance_sample_partition:
  "objects d = [card1, card2, card3, card4] \<Longrightarrow>
   rebalance_by_scheduled sample_lexorank card_cls d ''1:2'' =
     (Inr (), d\<lparr>objects :=
        [card1\<lparr>rank := ''abb''\<rparr>, card2\<lparr>rank := ''ab''\<rparr>, card3, card4\<lparr>rank := ''abbb''\<rparr>]\<rparr>)"
  using rebalance_by_scheduled_run [OF reverse_sample_key, of _ sample_lexorank d]
  by (simp add: coerce_card_cls prep_sample_key filter_sample_rows order_sample_rows
      sample_lexorank_def bulk_update_sample del: prep_lookups.simps)

lemma filter_other_rows:
  "filter_rows [(''board'', Some ''1''), (''column'', Some ''3'')]
     [card1\<lparr>rank := ''abb''\<rparr>, card2\<lparr>rank := ''ab''\<rparr>, card3, card4\<lparr>rank := ''abbb''\<rparr>]
     = [card3]"
  by (simp add: filter_rows_def matches_def card1_def card2_def card3_def card4_def)

lemma bulk_update_other:
  "bulk_update [card3\<lparr>rank := ''ab''\<rparr>]
     [card1\<lparr>rank := ''abb''\<rparr>, card2\<lparr>rank := ''ab''\<rparr>, card3, card4\<lparr>rank := ''abbb''\<rparr>]
   = [card1\<lparr>rank := ''abb''\<rparr>, card2\<lparr>rank := ''ab''\<rparr>, card3\<lparr>rank := ''ab''\<rparr>,
      card4\<lparr>rank := ''abbb''\<rparr>]"
  by (simp add: bulk_update_def card1_def card2_def card3_def card4_def)

lemma rebalance_other_partition:
  "objects d = [card1\<lparr>rank := ''abb''\<rparr>, card2\<lparr>rank := ''ab''\<rparr>, card3, card4\<lparr>rank := ''abbb''\<rparr>] \<Longrightarrow>
   rebalance_by_scheduled sample_lexorank card_cls d ''1:3'' =
     (Inr (), d\<lparr>objects :=
        [card1\<lparr>rank := ''abb''\<rparr>, card2\<lparr>rank := ''ab''\<rparr>, card3\<lparr>rank := ''ab''\<rparr>,
         card4\<lparr>rank := ''abbb''\<rparr>]\<rparr>)"
  using rebalance_by_scheduled_run [OF reverse_other_key, of _ sample_lexorank d]
  by (simp add: coerce_card_cls prep_other_key filter_other_rows order_by_rank_def
      sample_lexorank_def bulk_update_other del: prep_lookups.simps)

lemma rebalance_short_key:
  "rebalance_by_scheduled L card_cls d ''7'' = (Inl IndexError, d)"
  by (simp add: rebalance_by_scheduled_def reverse_short_key)

text \<open>
  The coercion at work: a component that is not a number is refused before anything is
  read, and a component with a leading zero selects the partition of the number it writes.
\<close>

lemma rebalance_refused_key:
  "rebalance_by_scheduled L card_cls d ''x:2'' = (Inl ValueError, d)"
  by (simp add: rebalance_by_scheduled_def reverse_with_respect_to_value_key_def card_cls_def
      SEPARATOR_def int_lookup_def)

lemma rebalance_leading_zero:
  "rebalance_by_scheduled L card_cls d ''01:2'' = rebalance_by_scheduled L card_cls d ''1:2''"
  by (simp add: rebalance_by_scheduled_def reverse_with_respect_to_value_key_def card_cls_def
      SEPARATOR_def int_lookup_def)

lemma sample_increment: "r < increment_rank sample_lexorank r n"
  by (simp add: sample_lexorank_def list_less_def lexord_append_rightI)

section \<open>Redistribution from a scheduled request\<close>

lemma scheduled_loop_length: "length (scheduled_loop L n r qs) = length qs"
  by (induction qs arbitrary: r) (auto simp: Let_def)

lemma scheduled_loop_pk: "map pk (scheduled_loop L n r qs) = map pk qs"
  by (induction qs arbitrary: r) (auto simp: Let_def)

lemma scheduled_loop_first:
  "qs \<noteq> [] \<Longrightarrow> rank (scheduled_loop L n r qs ! 0) = increment_rank L r n"
  by (cases qs) (auto simp: Let_def)

lemma scheduled_loop_next:
  "Suc i < length qs \<Longrightarrow>
     rank (scheduled_loop L n r qs ! Suc i) = increment_rank L (rank (scheduled_loop L n r qs ! i)) n"
proof (induction qs arbitrary: r i)
  case Nil
  then show ?case by simp
next
  case (Cons obj qs)
  show ?case
  proof (cases i)
    case 0
    then show ?thesis using Cons.prems
      by (cases qs) (auto simp: Let_def)
  next
    case (Suc j)
    then show ?thesis using Cons.prems Cons.IH [of j "increment_rank L r n"]
      by (auto simp: Let_def)
  qed
qed

lemma chain_sorted:
  "\<forall>i. Suc i < length rs \<longrightarrow> rs ! Suc i = f (rs ! i) \<Longrightarrow>
   \<forall>i. Suc i < length rs \<longrightarrow> rs ! i < f (rs ! i) \<Longrightarrow>
   sorted_wrt (<) (rs :: string list)"
  by (simp add: sorted_wrt_iff_nth_Suc_transp [OF transp_on_less])

lemma scheduled_loop_sorted:
  "\<forall>x. x < increment_rank L x n \<Longrightarrow>
     sorted_wrt (<) (map rank (scheduled_loop L n r qs))
     \<and> (\<forall>x \<in> set (scheduled_loop L n r qs). r < rank x)"
proof (induction qs arbitrary: r)
  case Nil
  then show ?case by simp
next
  case (Cons obj qs)
  from Cons.IH [OF Cons.prems, of "increment_rank L r n"]
  have s: "sorted_wrt (<) (map rank (scheduled_loop L n (increment_rank L r n) qs))"
    and b: "\<forall>x \<in> set (scheduled_loop L n (increment_rank L r n) qs). increment_rank L r n < rank x"
    by auto
  have step: "r < increment_rank L r n" using Cons.prems by simp
  show ?case using s b step by (auto simp: Let_def intro: less_trans)
qed

lemma find_pk_map:
  "(\<And>r. pk (f r) = pk r) \<Longrightarrow> find (\<lambda>r. pk r = p) (map f rows) = map_option f (find (\<lambda>r. pk r = p) rows)"
  by (induction rows) auto

lemma find_distinct_nth:
  "distinct (map f xs) \<Longrightarrow> i < length xs \<Longrightarrow> find (\<lambda>x. f x = f (xs ! i)) xs = Some (xs ! i)"
proof (induction xs arbitrary: i)
  case Nil
  then show ?case by simp
next
  case (Cons a xs)
  show ?case
  proof (cases i)
    case 0
    then show ?thesis by simp
  next
    case (Suc j)
    then have j: "j < length xs" using Cons.prems by simp
    then have "f (xs ! j) \<in> f ` set xs" by simp
    then have "f a \<noteq> f (xs ! j)" using Cons.prems(1) by auto
    then show ?thesis using Suc Cons.IH [of j] Cons.prems j by simp
  qed
qed

lemma find_member:
  "x \<in> set xs \<Longrightarrow> \<exists>y. find (\<lambda>r. f r = f x) xs = Some y \<and> f y = f x"
  by (induction xs) auto

lemma rank_of_pk_bulk_update:
  assumes d: "distinct (map pk objs)" and i: "i < length objs"
    and m: "pk (objs ! i) \<in> pk ` set rows"
  shows "rank_of_pk (bulk_update objs rows) (pk (objs ! i)) = Some (rank (objs ! i))"
proof -
  let ?f = "\<lambda>r. case find (\<lambda>obj. pk obj = pk r) objs of None \<Rightarrow> r | Some obj \<Rightarrow> r\<lparr>rank := rank obj\<rparr>"
  have pkf: "\<And>r. pk (?f r) = pk r" by (simp split: option.splits)
  from m obtain x where x: "x \<in> set rows" "pk x = pk (objs ! i)" by auto
  from find_member [OF x(1), of pk] obtain y where
    y: "find (\<lambda>r. pk r = pk x) rows = Some y" "pk y = pk x" by blast
  have "find (\<lambda>r. pk r = pk (objs ! i)) (map ?f rows) = Some (?f y)"
    using find_pk_map [of ?f "pk (objs ! i)" rows, OF pkf] y x by simp
  moreover have "find (\<lambda>obj. pk obj = pk y) objs = Some (objs ! i)"
    using find_distinct_nth [OF d i] y x by simp
  ultimately show ?thesis by (simp add: rank_of_pk_def bulk_update_def)
qed

lemma distinct_pk_partition:
  "distinct (map pk rows) \<Longrightarrow> distinct (map pk (order_by_rank (filter_rows kw rows)))"
  by (simp add: order_by_rank_def filter_rows_def distinct_map inj_on_def)

lemma partition_subset: "set (order_by_rank (filter_rows kw rows)) \<subseteq> set rows"
  by (auto simp: order_by_rank_def filter_rows_def)

text \<open>
  C3 (as amended). For a partition key that decodes and whose components the grouping
  fields accept, and a table with distinct primary keys, \<^verbatim>\<open>rebalance_by_scheduled\<close>
  succeeds; with \<open>qs\<close> the rows of the partition in rank order and \<open>n\<close> their number, the
  ranks \<open>rs\<close> stored for them are: for the first the increment of the minimum key for \<open>n\<close>
  (not the minimum key itself), for each later one the increment of the rank given to
  the one before. When every assigned rank but the last is below its own increment, the
  new ranks are strictly increasing in the original order.
\<close>

theorem rebalance_by_scheduled_ranks:
  assumes kw: "reverse_with_respect_to_value_key cls key = Inr kw"
    and lk: "prep_lookups (to_python cls) kw = Inr lookups"
    and dist: "distinct (map pk (objects d))"
    and qs: "qs = order_by_rank (filter_rows lookups (objects d))"
    and n: "n = length qs"
  shows "\<exists>d' rs. rebalance_by_scheduled L cls d key = (Inr (), d')
           \<and> length rs = n
           \<and> map (\<lambda>obj. rank_of_pk (objects d') (pk obj)) qs = map Some rs
           \<and> (0 < n \<longrightarrow> rs ! 0 = increment_rank L (get_min_rank L n) n)
           \<and> (\<forall>i. Suc i < n \<longrightarrow> rs ! Suc i = increment_rank L (rs ! i) n)
           \<and> ((\<forall>i. Suc i < n \<longrightarrow> rs ! i < increment_rank L (rs ! i) n)
                 \<longrightarrow> sorted_wrt (<) rs)"
proof -
  define upd where "upd = scheduled_loop L n (get_min_rank L n) qs"
  define d' where "d' = d\<lparr>objects := bulk_update upd (objects d)\<rparr>"
  have n': "n = length (filter_rows lookups (objects d))"
    using n qs by (simp add: order_by_rank_def)
  have run: "rebalance_by_scheduled L cls d key = (Inr (), d')"
    using kw lk qs n' by (simp add: rebalance_by_scheduled_def upd_def d'_def Let_def)
  have len: "length upd = n" using n by (simp add: upd_def scheduled_loop_length)
  have pks: "map pk upd = map pk qs" by (simp add: upd_def scheduled_loop_pk)
  have dq: "distinct (map pk qs)" using dist qs by (simp add: distinct_pk_partition)
  have du: "distinct (map pk upd)" using dq pks by simp
  have stored: "map (\<lambda>obj. rank_of_pk (objects d') (pk obj)) qs = map Some (map rank upd)"
  proof (rule nth_equalityI)
    show "length (map (\<lambda>obj. rank_of_pk (objects d') (pk obj)) qs) = length (map Some (map rank upd))"
      using len n by simp
  next
    fix i assume "i < length (map (\<lambda>obj. rank_of_pk (objects d') (pk obj)) qs)"
    then have i: "i < length qs" by simp
    then have iu: "i < length upd" using len n by simp
    have e: "pk (qs ! i) = pk (upd ! i)"
      using pks i iu by (metis nth_map)
    have "qs ! i \<in> set (objects d)" using partition_subset [of lookups "objects d"] qs i by auto
    then have "pk (upd ! i) \<in> pk ` set (objects d)" using e by (metis imageI)
    from rank_of_pk_bulk_update [OF du iu this]
    show "map (\<lambda>obj. rank_of_pk (objects d') (pk obj)) qs ! i = map Some (map rank upd) ! i"
      using i iu e by (simp add: d'_def)
  qed
  have first: "0 < n \<longrightarrow> map rank upd ! 0 = increment_rank L (get_min_rank L n) n"
    using n len scheduled_loop_first [of qs L n "get_min_rank L n"] by (auto simp: upd_def)
  have nxt: "\<forall>i. Suc i < n \<longrightarrow> map rank upd ! Suc i = increment_rank L (map rank upd ! i) n"
    using n len scheduled_loop_next [of _ qs L n "get_min_rank L n"] by (auto simp: upd_def)
  have srt: "(\<forall>i. Suc i < n \<longrightarrow> map rank upd ! i < increment_rank L (map rank upd ! i) n)
      \<longrightarrow> sorted_wrt (<) (map rank upd)"
  proof
    assume g: "\<forall>i. Suc i < n \<longrightarrow> map rank upd ! i < increment_rank L (map rank upd ! i) n"
    show "sorted_wrt (<) (map rank upd)"
      by (rule chain_sorted [where f = "\<lambda>r. increment_rank L r n"]) (use nxt g len in auto)
  qed
  show ?thesis
    using run len stored first nxt srt
    by (intro exI [of _ d'] exI [of _ "map rank upd"]) simp
qed

theorem rebalance_by_scheduled_ranks_witness:
  "\<exists>d' rs. rebalance_by_scheduled sample_lexorank card_cls sample_db ''1:2'' = (Inr (), d')
     \<and> map (\<lambda>obj. rank_of_pk (objects d') (pk obj)) [card2, card1, card4] = map Some rs
     \<and> rs = [''ab'', ''abb'', ''abbb''] \<and> sorted_wrt (<) rs"
proof -
  have o: "objects sample_db = [card1, card2, card3, card4]" by (simp add: sample_db_def)
  have lk: "prep_lookups (to_python card_cls) [(''board'', ''1''), (''column'', ''2'')]
      = Inr [(''board'', Some ''1''), (''column'', Some ''2'')]"
    unfolding coerce_card_cls by (rule prep_sample_key)
  have dist: "distinct (map pk (objects sample_db))"
    by (simp add: sample_db_def card1_def card2_def card3_def card4_def)
  have qs: "[card2, card1, card4] =
      order_by_rank (filter_rows [(''board'', Some ''1''), (''column'', Some ''2'')] (objects sample_db))"
    by (simp add: o filter_sample_rows order_sample_rows)
  have n: "3 = length [card2, card1, card4]" by simp
  from rebalance_by_scheduled_ranks [OF reverse_sample_key lk dist qs n, of sample_lexorank]
  obtain d' rs where run: "rebalance_by_scheduled sample_lexorank card_cls sample_db ''1:2'' = (Inr (), d')"
    and len: "length rs = 3"
    and st: "map (\<lambda>obj. rank_of_pk (objects d') (pk obj)) [card2, card1, card4] = map Some rs"
    and r0: "0 < (3::nat) \<longrightarrow> rs ! 0 = increment_rank sample_lexorank (get_min_rank sample_lexorank 3) 3"
    and rn: "\<forall>i. Suc i < 3 \<longrightarrow> rs ! Suc i = increment_rank sample_lexorank (rs ! i) 3"
    and srt: "(\<forall>i. Suc i < 3 \<longrightarrow> rs ! i < increment_rank sample_lexorank (rs ! i) 3)
        \<longrightarrow> sorted_wrt (<) rs"
    apply (elim exE conjE)
    subgoal premises p for d' rs
      by (rule p(1) [OF p(2-7)])
    done
  from len obtain a b c where rs: "rs = [a, b, c]"
    by (auto simp: numeral_3_eq_3 length_Suc_conv)
  have a: "a = ''ab''" using r0 rs by (simp add: sample_lexorank_def)
  have "rs ! Suc 0 = increment_rank sample_lexorank (rs ! 0) 3" using rn by simp
  then have b: "b = ''abb''" using rs a by (simp add: sample_lexorank_def)
  have "rs ! Suc 1 = increment_rank sample_lexorank (rs ! 1) 3" using rn by simp
  then have c: "c = ''abbb''" using rs b by (simp add: sample_lexorank_def)
  have "sorted_wrt (<) rs" using srt sample_increment by simp
  then show ?thesis using run st rs a b c by blast
qed

text \<open>
  C3, counterexample to the claim as stated: in the sample table the first card of the
  partition in rank order is card 2; after the redistribution of three cards its rank is
  the increment of the minimum key, not the minimum key.
\<close>

theorem first_item_gets_incremented_minimum:
  "first (order_by_rank
     (filter_rows [(''board'', Some ''1''), (''column'', Some ''2'')] (objects sample_db)))
     = Some card2
   \<and> get_min_rank sample_lexorank 3 = ''a''
   \<and> rank_of_pk (objects (snd (rebalance_by_scheduled sample_lexorank card_cls sample_db ''1:2'')))
       (pk card2) = Some ''ab''
   \<and> rank_of_pk (objects (snd (rebalance_by_scheduled sample_lexorank card_cls sample_db ''1:2'')))
       (pk card2) \<noteq> Some (get_min_rank sample_lexorank 3)"
proof -
  have o: "objects sample_db = [card1, card2, card3, card4]" by (simp add: sample_db_def)
  show ?thesis
    by (simp add: rebalance_sample_partition [OF o] o filter_sample_rows order_sample_rows
        first_def)
       (simp add: rank_of_pk_def sample_lexorank_def card1_def card2_def)
qed


section \<open>The maintenance pass\<close>

lemma rebalance_by_scheduled_scheduled:
  "scheduled (snd (rebalance_by_scheduled L cls d key)) = scheduled d"
  by (simp add: rebalance_by_scheduled_def Let_def split: sum.splits)

lemma rebalance_by_scheduled_failure:
  "rebalance_by_scheduled L cls d key = (Inl e, d') \<Longrightarrow> d' = d"
  by (auto simp: rebalance_by_scheduled_def Let_def split: sum.splits)

lemma resolve_loop_scheduled:
  "scheduled (snd (resolve_loop L m xs d)) = scheduled d"
proof (induction xs arbitrary: d)
  case Nil
  then show ?case by simp
next
  case (Cons x xs)
  show ?case
  proof (cases m)
    case None
    then show ?thesis by simp
  next
    case (Some cls)
    obtain r d' where r: "rebalance_by_scheduled L cls d (with_respect_to x) = (r, d')"
      by (cases "rebalance_by_scheduled L cls d (with_respect_to x)")
    have s: "scheduled d' = scheduled d"
      using rebalance_by_scheduled_scheduled [of L cls d "with_respect_to x"] r by simp
    show ?thesis using Some r s Cons.IH [of d'] by (cases r) auto
  qed
qed

lemma resolve_loop_success:
  "fst (resolve_loop L (Some cls) xs d) = Inr () \<Longrightarrow>
     snd (resolve_loop L (Some cls) xs d) =
       foldl (\<lambda>d' x. snd (rebalance_by_scheduled L cls d' (with_respect_to x))) d xs"
proof (induction xs arbitrary: d)
  case Nil
  then show ?case by simp
next
  case (Cons x xs)
  obtain r d' where r: "rebalance_by_scheduled L cls d (with_respect_to x) = (r, d')"
    by (cases "rebalance_by_scheduled L cls d (with_respect_to x)")
  show ?case
  proof (cases r)
    case (Inl e)
    then show ?thesis using Cons.prems r by simp
  next
    case (Inr u)
    then show ?thesis using Cons.prems r Cons.IH [of d'] by simp
  qed
qed

lemma resolve_loop_success_iff:
  "(fst (resolve_loop L (Some cls) xs d) = Inr ()) =
     (\<forall>i<length xs. fst (rebalance_by_scheduled L cls
         (foldl (\<lambda>d' x. snd (rebalance_by_scheduled L cls d' (with_respect_to x))) d (take i xs))
         (with_respect_to (xs ! i))) = Inr ())"
proof (induction xs arbitrary: d)
  case Nil
  then show ?case by simp
next
  case (Cons x xs)
  obtain r d' where r: "rebalance_by_scheduled L cls d (with_respect_to x) = (r, d')"
    by (cases "rebalance_by_scheduled L cls d (with_respect_to x)")
  show ?case
  proof (cases r)
    case (Inl e)
    then show ?thesis using r by (auto simp: All_less_Suc2)
  next
    case (Inr u)
    then show ?thesis using r Cons.IH [of d'] by (simp add: All_less_Suc2)
  qed
qed

lemma resolve_loop_append:
  "resolve_loop L m (pre @ rest) d =
     (case resolve_loop L m pre d of
        (Inl e, d') \<Rightarrow> (Inl e, d')
      | (Inr u, d') \<Rightarrow> resolve_loop L m rest d')"
proof (induction pre arbitrary: d)
  case Nil
  then show ?case by simp
next
  case (Cons x pre)
  show ?case
  proof (cases m)
    case None
    then show ?thesis by simp
  next
    case (Some cls)
    obtain r d' where r: "rebalance_by_scheduled L cls d (with_respect_to x) = (r, d')"
      by (cases "rebalance_by_scheduled L cls d (with_respect_to x)")
    show ?thesis using Some r Cons.IH [of d'] by (cases r) auto
  qed
qed

text \<open>
  C2 (as amended). Let \<open>rows\<close> be the scheduled rebalancings with \<^verbatim>\<open>scheduled_at <= now\<close>,
  in table order. A pass of \<^verbatim>\<open>resolve\<close> deletes nothing: whatever it returns, the table of
  scheduled rebalancings is the one it started from. The pass completes exactly when
  \<^verbatim>\<open>rebalance_by_scheduled\<close> succeeds on each row in turn, each on the store left by the
  rows before it; and a pass that completes leaves the store that results from
  redistributing for every one of these rows, in that order.
\<close>

theorem resolve_keeps_requests:
  assumes rows: "rows = filter (\<lambda>r. scheduled_at r \<le> now) (scheduled d)"
  shows "scheduled (snd (resolve L cmd_model now d)) = scheduled d
   \<and> (fst (resolve L (Some cls) now d) = Inr ()) =
       (\<forall>i<length rows. fst (rebalance_by_scheduled L cls
           (foldl (\<lambda>d' x. snd (rebalance_by_scheduled L cls d' (with_respect_to x))) d (take i rows))
           (with_respect_to (rows ! i))) = Inr ())
   \<and> (fst (resolve L (Some cls) now d) = Inr () \<longrightarrow>
        snd (resolve L (Some cls) now d) =
          foldl (\<lambda>d' x. snd (rebalance_by_scheduled L cls d' (with_respect_to x))) d rows)"
proof -
  have r: "resolve L (Some cls) now d = resolve_loop L (Some cls) rows d"
    using rows by (cases rows) (simp_all add: resolve_def due_def Let_def)
  show ?thesis
    unfolding r
    by (simp add: resolve_loop_success_iff resolve_loop_success)
       (simp add: resolve_def Let_def resolve_loop_scheduled)
qed

theorem resolve_keeps_requests_witness:
  "filter (\<lambda>r. scheduled_at r \<le> 5) (scheduled two_due_db) =
     [\<lparr>model = ''card'', with_respect_to = ''1:2'', scheduled_at = 1\<rparr>,
      \<lparr>model = ''card'', with_respect_to = ''1:3'', scheduled_at = 2\<rparr>]
   \<and> resolve sample_lexorank (Some card_cls) 5 two_due_db =
       (Inr (), two_due_db\<lparr>objects :=
          [card1\<lparr>rank := ''abb''\<rparr>, card2\<lparr>rank := ''ab''\<rparr>, card3\<lparr>rank := ''ab''\<rparr>,
           card4\<lparr>rank := ''abbb''\<rparr>]\<rparr>)
   \<and> scheduled (snd (resolve sample_lexorank (Some card_cls) 5 two_due_db)) =
       [\<lparr>model = ''card'', with_respect_to = ''1:2'', scheduled_at = 1\<rparr>,
        \<lparr>model = ''card'', with_respect_to = ''1:3'', scheduled_at = 2\<rparr>,
        \<lparr>model = ''card'', with_respect_to = ''1:2'', scheduled_at = 9\<rparr>]"
proof -
  let ?a = "\<lparr>model = ''card'', with_respect_to = ''1:2'', scheduled_at = 1\<rparr>"
  let ?b = "\<lparr>model = ''card'', with_respect_to = ''1:3'', scheduled_at = 2\<rparr>"
  let ?step = "\<lambda>d' x. snd (rebalance_by_scheduled sample_lexorank card_cls d' (with_respect_to x))"
  let ?d1 = "two_due_db\<lparr>objects :=
      [card1\<lparr>rank := ''abb''\<rparr>, card2\<lparr>rank := ''ab''\<rparr>, card3, card4\<lparr>rank := ''abbb''\<rparr>]\<rparr>"
  let ?d2 = "two_due_db\<lparr>objects :=
      [card1\<lparr>rank := ''abb''\<rparr>, card2\<lparr>rank := ''ab''\<rparr>, card3\<lparr>rank := ''ab''\<rparr>,
       card4\<lparr>rank := ''abbb''\<rparr>]\<rparr>"
  have o: "objects two_due_db = [card1, card2, card3, card4]"
    by (simp add: two_due_db_def sample_db_def)
  have rows: "[?a, ?b] = filter (\<lambda>r. scheduled_at r \<le> 5) (scheduled two_due_db)"
    by (simp add: two_due_db_def)
  have s1: "rebalance_by_scheduled sample_lexorank card_cls two_due_db ''1:2'' = (Inr (), ?d1)"
    by (rule rebalance_sample_partition [OF o])
  have s2: "rebalance_by_scheduled sample_lexorank card_cls ?d1 ''1:3'' = (Inr (), ?d2)"
    using rebalance_other_partition [of ?d1] by simp
  have calls: "\<forall>i<length [?a, ?b]. fst (rebalance_by_scheduled sample_lexorank card_cls
           (foldl ?step two_due_db (take i [?a, ?b])) (with_respect_to ([?a, ?b] ! i))) = Inr ()"
    by (simp add: All_less_Suc2 numeral_2_eq_2 s1 s2)
  from resolve_keeps_requests [OF rows, of sample_lexorank "Some card_cls" card_cls]
  have keep: "scheduled (snd (resolve sample_lexorank (Some card_cls) 5 two_due_db))
      = scheduled two_due_db"
    and ok: "(fst (resolve sample_lexorank (Some card_cls) 5 two_due_db) = Inr ()) =
       (\<forall>i<length [?a, ?b]. fst (rebalance_by_scheduled sample_lexorank card_cls
           (foldl ?step two_due_db (take i [?a, ?b])) (with_respect_to ([?a, ?b] ! i))) = Inr ())"
    and res: "fst (resolve sample_lexorank (Some card_cls) 5 two_due_db) = Inr () \<longrightarrow>
        snd (resolve sample_lexorank (Some card_cls) 5 two_due_db) = foldl ?step two_due_db [?a, ?b]"
    by blast+
  have f: "fst (resolve sample_lexorank (Some card_cls) 5 two_due_db) = Inr ()"
    using ok calls by blast
  have "foldl ?step two_due_db [?a, ?b] = ?d2" by (simp add: s1 s2)
  then have s: "snd (resolve sample_lexorank (Some card_cls) 5 two_due_db) = ?d2"
    using res f by simp
  have "resolve sample_lexorank (Some card_cls) 5 two_due_db = (Inr (), ?d2)"
    using f s by (metis prod.collapse)
  moreover have "scheduled two_due_db =
       [?a, ?b, \<lparr>model = ''card'', with_respect_to = ''1:2'', scheduled_at = 9\<rparr>]"
    by (simp add: two_due_db_def)
  ultimately show ?thesis using rows keep by simp
qed

text \<open>
  C2, counterexample to the claim as stated: the pass over the one due request of the
  sample succeeds, and the request it processed is still in the table.
\<close>

theorem processed_request_remains:
  "due 5 due_db = [\<lparr>model = ''card'', with_respect_to = ''1:2'', scheduled_at = 3\<rparr>]
   \<and> fst (resolve sample_lexorank (Some card_cls) 5 due_db) = Inr ()
   \<and> scheduled (snd (resolve sample_lexorank (Some card_cls) 5 due_db))
       = [\<lparr>model = ''card'', with_respect_to = ''1:2'', scheduled_at = 3\<rparr>]"
  by (simp add: resolve_def due_def Let_def due_db_def rebalance_sample_partition sample_db_def)


text \<open>
  C7 (as amended). A failure is not isolated: when the due rows are \<open>pre\<close>, \<open>x\<close>, \<open>post\<close>,
  the rows of \<open>pre\<close> are processed and \<^verbatim>\<open>rebalance_by_scheduled\<close> raises on \<open>x\<close>, the pass
  raises that exception and leaves the store as it was after \<open>pre\<close>: no row of \<open>post\<close>
  is attempted.
\<close>

theorem resolve_stops_at_first_failure:
  assumes due: "due now d = pre @ x # post"
    and pre: "resolve_loop L (Some cls) pre d = (Inr (), d1)"
    and fail: "rebalance_by_scheduled L cls d1 (with_respect_to x) = (Inl e, d2)"
  shows "resolve L (Some cls) now d = (Inl e, d1)"
proof -
  have "d2 = d1" using fail by (rule rebalance_by_scheduled_failure)
  then have "resolve_loop L (Some cls) (x # post) d1 = (Inl e, d1)" using fail by simp
  then have "resolve_loop L (Some cls) (pre @ x # post) d = (Inl e, d1)"
    using pre by (simp add: resolve_loop_append)
  then show ?thesis using due by (simp add: resolve_def Let_def)
qed

theorem resolve_stops_at_first_failure_witness:
  "resolve sample_lexorank (Some card_cls) 5 three_db =
     (Inl IndexError, three_db\<lparr>objects :=
        [card1\<lparr>rank := ''abb''\<rparr>, card2\<lparr>rank := ''ab''\<rparr>, card3, card4\<lparr>rank := ''abbb''\<rparr>]\<rparr>)"
proof -
  let ?a = "\<lparr>model = ''card'', with_respect_to = ''1:2'', scheduled_at = 1\<rparr>"
  let ?b = "\<lparr>model = ''task'', with_respect_to = ''7'', scheduled_at = 2\<rparr>"
  let ?c = "\<lparr>model = ''card'', with_respect_to = ''1:3'', scheduled_at = 3\<rparr>"
  let ?d1 = "three_db\<lparr>objects :=
        [card1\<lparr>rank := ''abb''\<rparr>, card2\<lparr>rank := ''ab''\<rparr>, card3, card4\<lparr>rank := ''abbb''\<rparr>]\<rparr>"
  have o: "objects three_db = [card1, card2, card3, card4]"
    by (simp add: three_db_def sample_db_def)
  have due: "due 5 three_db = [?a] @ ?b # [?c]"
    by (simp add: due_def three_db_def)
  have pre: "resolve_loop sample_lexorank (Some card_cls) [?a] three_db = (Inr (), ?d1)"
    by (simp add: rebalance_sample_partition [OF o])
  have fail: "rebalance_by_scheduled sample_lexorank card_cls ?d1 (with_respect_to ?b)
      = (Inl IndexError, ?d1)"
    by (simp add: rebalance_short_key)
  from resolve_stops_at_first_failure [OF due pre fail] show ?thesis .
qed

text \<open>
  C7, counterexample to the claim as stated: the first due row of the sample has a key of
  one component where the model has two grouping fields, so decoding it raises
  \<^verbatim>\<open>IndexError\<close>; the pass ends there with the store untouched, although the
  redistribution of the second due partition would have succeeded and changed the ranks.
\<close>

theorem failure_aborts_the_pass:
  "due 5 mixed_db =
     [\<lparr>model = ''task'', with_respect_to = ''7'', scheduled_at = 1\<rparr>,
      \<lparr>model = ''card'', with_respect_to = ''1:2'', scheduled_at = 2\<rparr>]
   \<and> resolve sample_lexorank (Some card_cls) 5 mixed_db = (Inl IndexError, mixed_db)
   \<and> rebalance_by_scheduled sample_lexorank card_cls mixed_db ''1:2'' =
       (Inr (), mixed_db\<lparr>objects :=
          [card1\<lparr>rank := ''abb''\<rparr>, card2\<lparr>rank := ''ab''\<rparr>, card3, card4\<lparr>rank := ''abbb''\<rparr>]\<rparr>)"
proof -
  have o: "objects mixed_db = [card1, card2, card3, card4]"
    by (simp add: mixed_db_def sample_db_def)
  have due: "due 5 mixed_db =
     [\<lparr>model = ''task'', with_respect_to = ''7'', scheduled_at = 1\<rparr>,
      \<lparr>model = ''card'', with_respect_to = ''1:2'', scheduled_at = 2\<rparr>]"
    by (simp add: due_def mixed_db_def)
  have "resolve sample_lexorank (Some card_cls) 5 mixed_db = (Inl IndexError, mixed_db)"
    by (simp add: resolve_def due Let_def rebalance_short_key)
  then show ?thesis using due rebalance_sample_partition [OF o] by simp
qed


section \<open>Scheduling a rebalancing\<close>

lemma update_or_create_new:
  "requests_for m k d = [] \<Longrightarrow>
     update_or_create now m k d =
       (Inr (), d\<lparr>scheduled := scheduled d @ [\<lparr>model = m, with_respect_to = k, scheduled_at = now\<rparr>]\<rparr>)"
  by (simp add: update_or_create_def requests_for_def)

lemma update_or_create_existing:
  "length (requests_for m k d) = 1 \<Longrightarrow> update_or_create now m k d = (Inr (), d)"
  by (cases "requests_for m k d"; cases "tl (requests_for m k d)")
     (auto simp: update_or_create_def requests_for_def)

lemma schedule_repeatedly_existing:
  "with_respect_to_value_key cls self = Inr k \<Longrightarrow>
   length (requests_for (model_name cls) k d) = 1 \<Longrightarrow>
   schedule_repeatedly cls self ts d = (Inr (), d)"
  by (induction ts) (auto simp: schedule_rebalancing_def update_or_create_existing)

text \<open>
  C4 (as amended). When the item's partition key can be read and the table holds at most
  one request for (model name, key), calling \<^verbatim>\<open>schedule_rebalancing\<close> at the times
  \<open>ts\<close> (at least one) succeeds and leaves exactly one such request; the table of the
  model is unchanged. If there was none, the only change is the new row stamped with the
  time of the first call; if there was one, nothing changes. Every further call leaves
  the store as it is, the time stamp included.
\<close>

theorem schedule_rebalancing_idempotent:
  assumes key: "with_respect_to_value_key cls self = Inr k"
    and one: "length (requests_for (model_name cls) k d) \<le> 1"
    and ts: "ts \<noteq> []"
  shows "\<exists>d'. schedule_repeatedly cls self ts d = (Inr (), d')
           \<and> length (requests_for (model_name cls) k d') = 1
           \<and> objects d' = objects d
           \<and> scheduled d' =
               (if requests_for (model_name cls) k d = []
                then scheduled d @
                  [\<lparr>model = model_name cls, with_respect_to = k, scheduled_at = hd ts\<rparr>]
                else scheduled d)
           \<and> (\<forall>t. schedule_rebalancing t cls d' self = (Inr (), d'))"
proof (cases "requests_for (model_name cls) k d = []")
  case True
  obtain t rest where tr: "ts = t # rest" using ts by (cases ts) auto
  define d1 where "d1 = d\<lparr>scheduled := scheduled d @
      [\<lparr>model = model_name cls, with_respect_to = k, scheduled_at = t\<rparr>]\<rparr>"
  have first: "schedule_rebalancing t cls d self = (Inr (), d1)"
    using key True by (simp add: schedule_rebalancing_def update_or_create_new d1_def)
  have l1: "length (requests_for (model_name cls) k d1) = 1"
    using True by (simp add: requests_for_def d1_def)
  have "schedule_repeatedly cls self rest d1 = (Inr (), d1)"
    by (rule schedule_repeatedly_existing [OF key l1])
  then have run: "schedule_repeatedly cls self ts d = (Inr (), d1)"
    using first tr by simp
  have again: "\<forall>t'. schedule_rebalancing t' cls d1 self = (Inr (), d1)"
    using key l1 by (simp add: schedule_rebalancing_def update_or_create_existing)
  show ?thesis
    using run l1 again True tr by (intro exI [of _ d1]) (simp add: d1_def)
next
  case False
  then have l1: "length (requests_for (model_name cls) k d) = 1"
    using one by (cases "requests_for (model_name cls) k d") auto
  have run: "schedule_repeatedly cls self ts d = (Inr (), d)"
    by (rule schedule_repeatedly_existing [OF key l1])
  have again: "\<forall>t'. schedule_rebalancing t' cls d self = (Inr (), d)"
    using key l1 by (simp add: schedule_rebalancing_def update_or_create_existing)
  show ?thesis using run l1 again False by (intro exI [of _ d]) simp
qed

theorem schedule_rebalancing_idempotent_witness:
  "\<exists>d'. schedule_repeatedly card_cls card1 [5, 9, 12] sample_db = (Inr (), d')
     \<and> length (requests_for ''card'' ''1:2'' d') = 1
     \<and> objects d' = objects sample_db
     \<and> scheduled d' = [\<lparr>model = ''card'', with_respect_to = ''1:2'', scheduled_at = 5\<rparr>]"
proof -
  have key: "with_respect_to_value_key card_cls card1 = Inr ''1:2''"
    by (simp add: with_respect_to_value_key_def with_respect_to_value_def card_cls_def
        card1_def getattr_field_def SEPARATOR_def)
  have one: "length (requests_for (model_name card_cls) ''1:2'' sample_db) \<le> 1"
    by (simp add: requests_for_def sample_db_def)
  have ts: "[5, 9, 12] \<noteq> ([]::nat list)" by simp
  have none: "requests_for (model_name card_cls) ''1:2'' sample_db = []"
    by (simp add: requests_for_def sample_db_def)
  from schedule_rebalancing_idempotent [OF key one ts]
  obtain d' where run: "schedule_repeatedly card_cls card1 [5, 9, 12] sample_db = (Inr (), d')"
    and l: "length (requests_for (model_name card_cls) ''1:2'' d') = 1"
    and ob: "objects d' = objects sample_db"
    and sc: "scheduled d' =
               (if requests_for (model_name card_cls) ''1:2'' sample_db = []
                then scheduled sample_db @
                  [\<lparr>model = model_name card_cls, with_respect_to = ''1:2'', scheduled_at = hd [5, 9, 12]\<rparr>]
                else scheduled sample_db)"
    by blast
  have m: "model_name card_cls = ''card''" by (simp add: card_cls_def)
  have "scheduled d' = [\<lparr>model = ''card'', with_respect_to = ''1:2'', scheduled_at = 5\<rparr>]"
    using sc none m by (simp add: sample_db_def)
  then show ?thesis using run l ob m by auto
qed

text \<open>
  C4, counterexample to the claim as stated: after a call at time 5 and a second call at
  time 9 the store is what the first call left, and the request still carries time 5.
\<close>

theorem timestamp_not_refreshed:
  "schedule_repeatedly card_cls card1 [5] sample_db =
     (Inr (), sample_db\<lparr>scheduled :=
        [\<lparr>model = ''card'', with_respect_to = ''1:2'', scheduled_at = 5\<rparr>]\<rparr>)
   \<and> schedule_repeatedly card_cls card1 [5, 9] sample_db =
     (Inr (), sample_db\<lparr>scheduled :=
        [\<lparr>model = ''card'', with_respect_to = ''1:2'', scheduled_at = 5\<rparr>]\<rparr>)
   \<and> map scheduled_at (scheduled (snd (schedule_repeatedly card_cls card1 [5, 9] sample_db))) \<noteq> [9]"
proof -
  have key: "with_respect_to_value_key card_cls card1 = Inr ''1:2''"
    by (simp add: with_respect_to_value_key_def with_respect_to_value_def card_cls_def
        card1_def getattr_field_def SEPARATOR_def)
  have m: "model_name card_cls = ''card''" by (simp add: card_cls_def)
  let ?d5 = "sample_db\<lparr>scheduled :=
        [\<lparr>model = ''card'', with_respect_to = ''1:2'', scheduled_at = 5\<rparr>]\<rparr>"
  have s1: "schedule_rebalancing 5 card_cls sample_db card1 = (Inr (), ?d5)"
    by (simp add: schedule_rebalancing_def key m update_or_create_def sample_db_def)
  have s2: "schedule_rebalancing 9 card_cls ?d5 card1 = (Inr (), ?d5)"
    by (simp add: schedule_rebalancing_def key m update_or_create_def)
  show ?thesis by (simp add: s1 s2)
qed

end
